theory Spec2Isabelle
  imports Main "HOL-Library.Word"
begin

section \<open>The trie database of src/graphql/service.go (package trie)\<close>

text \<open>
  A shallow embedding of the in-memory write layer \<^verbatim>\<open>Database\<close>: the dirty node
  store, the flush list threaded through it, reference tracking, the versioned
  pruner, the flush-list cap and the committer.

  Conventions of the embedding.
  \<^item> \<^verbatim>\<open>common.Hash\<close> is a 32 byte array, here a 256 bit word; the zero hash is \<open>0\<close>.
  \<^item> A Go run-time panic or fatal error is a value of type \<open>crash\<close>; a function that
    can hit one returns \<open>crash + 'a\<close>. A Go \<^verbatim>\<open>error\<close> result is a value of type \<open>err\<close>.
  \<^item> \<^verbatim>\<open>common.StorageSize\<close> is a float64 that only ever holds sums and differences
    of small integers; it is modelled by \<open>int\<close>.
  \<^item> Go's map iteration order is unspecified. The explicit \<^verbatim>\<open>children\<close> map and the
    preimage map are association lists, iterated in list order; every theorem
    below holds for every list, hence for every iteration order.
  \<^item> The read-write mutex is two fields of the state (\<open>readers\<close>, \<open>writer\<close>). All
    operations run on one goroutine: taking a lock that is held is \<open>Deadlock\<close>,
    releasing one that is not held is Go's fatal error.
  \<^item> The wall clock and the disk's write failures are inputs: \<open>clock\<close> lists the
    successive readings of \<^verbatim>\<open>time.Now()\<close> (nanoseconds), \<open>faults\<close> says for each
    successive \<^verbatim>\<open>batch.Write()\<close> whether it fails.
  \<^item> Recursion over the node graph (\<^verbatim>\<open>dereference\<close>, \<^verbatim>\<open>commit\<close>) takes the
    available stack depth as its first argument and ends in \<open>OutOfStack\<close> when it
    is used up.
  \<^item> Metrics, logging and the gc/flush statistics counters are left out.
\<close>

subsection \<open>Hashes, nodes, errors\<close>

type_synonym hash = "256 word"
type_synonym bytes = "8 word list"

definition HashLength :: nat where
  "HashLength = 32"

text \<open>\<^verbatim>\<open>common.BytesToHash\<close>: big endian, cropped from the left, padded with zeros.\<close>

definition BytesToHash :: "bytes \<Rightarrow> hash" where
  "BytesToHash b = foldl (\<lambda>a x. push_bit 8 a + ucast x) 0 b"

datatype crash =
    NilPointer
  | UnknownNodeType
  | RUnlockOfUnlocked
  | UnlockOfUnlocked
  | Deadlock
  | OutOfStack

datatype err = NotFound | WriteFailed

text \<open>
  The \<^verbatim>\<open>node\<close> interface with the implementations this file switches on. The
  expanded forms \<open>ShortNode\<close> and \<open>FullNode\<close> carry only what \<^verbatim>\<open>simplifyNode\<close>
  reads (key, value, children); a full node has 17 children.
\<close>

datatype node =
    NilNode
  | ShortNode bytes node
  | FullNode "node list"
  | RawShortNode bytes node
  | RawFullNode "node list"
  | HashNode bytes
  | ValueNode bytes
  | RawNode bytes

fun is_rawNode :: "node \<Rightarrow> bool" where
  "is_rawNode (RawNode b) = True"
| "is_rawNode n = False"

definition andThen :: "crash + 'a \<Rightarrow> ('a \<Rightarrow> crash + 'b) \<Rightarrow> crash + 'b" where
  "andThen m f = (case m of Inl e \<Rightarrow> Inl e | Inr x \<Rightarrow> f x)"

fun simplifyList :: "(node \<Rightarrow> node option) \<Rightarrow> node list \<Rightarrow> node list option" where
  "simplifyList f [] = Some []"
| "simplifyList f (c # cs) =
     (case (if c = NilNode then Some NilNode else f c) of
        None \<Rightarrow> None
      | Some c' \<Rightarrow> (case simplifyList f cs of None \<Rightarrow> None | Some cs' \<Rightarrow> Some (c' # cs')))"

lemma simplifyList_ext:
  "(\<And>c. c \<in> set cs \<Longrightarrow> f c = g c) \<Longrightarrow> simplifyList f cs = simplifyList g cs"
proof (induction cs)
  case Nil
  show ?case by simp
next
  case (Cons a cs)
  have "simplifyList f cs = simplifyList g cs"
    using Cons by simp
  moreover have "f a = g a"
    using Cons.prems by simp
  ultimately show ?case by (simp cong: option.case_cong)
qed

lemma simplifyList_cong [fundef_cong]:
  "cs = cs' \<Longrightarrow> (\<And>c. c \<in> set cs' \<Longrightarrow> f c = g c) \<Longrightarrow> simplifyList f cs = simplifyList g cs'"
  using simplifyList_ext by blast

text \<open>\<^verbatim>\<open>simplifyNode\<close>; \<open>None\<close> is its panic "unknown node type".\<close>

fun simplifyNode :: "node \<Rightarrow> node option" where
  "simplifyNode (ShortNode k v) = map_option (RawShortNode k) (simplifyNode v)"
| "simplifyNode (FullNode cs) = map_option RawFullNode (simplifyList simplifyNode cs)"
| "simplifyNode (ValueNode v) = Some (ValueNode v)"
| "simplifyNode (HashNode h) = Some (HashNode h)"
| "simplifyNode (RawNode r) = Some (RawNode r)"
| "simplifyNode n = None"

text \<open>
  \<^verbatim>\<open>forGatherChildren\<close>: the callback runs on every hash node, left to right;
  the loop over a full node visits the indices 0 to 15.
\<close>

fun forGatherChildren :: "node \<Rightarrow> (hash \<Rightarrow> 's \<Rightarrow> crash + 's) \<Rightarrow> 's \<Rightarrow> crash + 's"
  and forGatherList :: "nat \<Rightarrow> node list \<Rightarrow> (hash \<Rightarrow> 's \<Rightarrow> crash + 's) \<Rightarrow> 's \<Rightarrow> crash + 's"
where
  "forGatherChildren (RawShortNode k v) onChild s = forGatherChildren v onChild s"
| "forGatherChildren (RawFullNode cs) onChild s = forGatherList 16 cs onChild s"
| "forGatherChildren (HashNode b) onChild s = onChild (BytesToHash b) s"
| "forGatherChildren (ValueNode v) onChild s = Inr s"
| "forGatherChildren NilNode onChild s = Inr s"
| "forGatherChildren (RawNode r) onChild s = Inr s"
| "forGatherChildren (ShortNode k v) onChild s = Inl UnknownNodeType"
| "forGatherChildren (FullNode cs) onChild s = Inl UnknownNodeType"
| "forGatherList 0 cs onChild s = Inr s"
| "forGatherList (Suc i) [] onChild s = Inr s"
| "forGatherList (Suc i) (c # cs) onChild s =
     (case forGatherChildren c onChild s of
        Inl e \<Rightarrow> Inl e
      | Inr s' \<Rightarrow> forGatherList i cs onChild s')"

fun forEach :: "'a list \<Rightarrow> ('a \<Rightarrow> 's \<Rightarrow> crash + 's) \<Rightarrow> 's \<Rightarrow> crash + 's" where
  "forEach [] f s = Inr s"
| "forEach (x # xs) f s = (case f x s of Inl e \<Rightarrow> Inl e | Inr s' \<Rightarrow> forEach xs f s')"

subsection \<open>The cached node and the database\<close>

record cachedNode =
  node :: node
  size' :: "16 word"
  parents :: "32 word"
  children :: "(hash \<times> 16 word) list option"
  flushPrev :: hash
  flushNext :: hash
  version :: "64 word"

definition cachedNodeChildrenSize :: int where
  "cachedNodeChildrenSize = 48"

text \<open>
  What this file takes from packages that are not part of it: the node encoder
  \<^verbatim>\<open>nodeToBytes\<close>, \<^verbatim>\<open>ethdb.IdealBatchSize\<close>, and \<^verbatim>\<open>cachedNodeSize\<close>, which the
  source computes by reflection.
\<close>

record extern =
  nodeToBytes :: "node \<Rightarrow> bytes"
  IdealBatchSize :: nat
  cachedNodeSize :: nat

text \<open>
  Modelled from the spec: the disk store (\<^verbatim>\<open>ethdb.KeyValueStore\<close>, \<^verbatim>\<open>ethdb.Batch\<close> and the
  \<^verbatim>\<open>rawdb\<close> accessors are missing). A trie node is stored under its hash, a preimage
  under a key derived from the hash. A batch buffers puts in write order,
  \<open>ValueSize\<close> is the number of value bytes queued, \<open>Write\<close> stores them all or
  fails and stores nothing, \<open>Replay\<close> calls back once per put in write order.
\<close>

datatype key = TrieKey hash | PreimageKey hash

type_synonym batch = "(key \<times> bytes) list"

record Database =
  diskdb :: "key \<rightharpoonup> bytes"
  freshNodes :: "hash set"
  cleans :: "(hash \<rightharpoonup> bytes) option"
  dirties :: "hash \<rightharpoonup> cachedNode"
  oldest :: hash
  newest :: hash
  nodeVersion :: "64 word"
  useless :: "hash set list"
  preimages :: "(hash \<times> bytes) list option"
  dirtiesSize :: int
  childrenSize :: int
  preimagesSize :: int
  readers :: nat
  writer :: bool
  clock :: "nat list"
  faults :: "bool list"

definition Lock :: "Database \<Rightarrow> crash + Database" where
  "Lock db = (if writer db \<or> readers db \<noteq> 0 then Inl Deadlock else Inr (db\<lparr>writer := True\<rparr>))"

definition Unlock :: "Database \<Rightarrow> crash + Database" where
  "Unlock db = (if writer db then Inr (db\<lparr>writer := False\<rparr>) else Inl UnlockOfUnlocked)"

definition RLock :: "Database \<Rightarrow> crash + Database" where
  "RLock db = (if writer db then Inl Deadlock else Inr (db\<lparr>readers := Suc (readers db)\<rparr>))"

definition RUnlock :: "Database \<Rightarrow> crash + Database" where
  "RUnlock db =
     (if readers db = 0 then Inl RUnlockOfUnlocked else Inr (db\<lparr>readers := readers db - 1\<rparr>))"

text \<open>\<^verbatim>\<open>time.Now()\<close>: the next reading of the clock.\<close>

definition Now :: "Database \<Rightarrow> nat \<times> Database" where
  "Now db = (case clock db of [] \<Rightarrow> (0, db) | t # ts \<Rightarrow> (t, db\<lparr>clock := ts\<rparr>))"

definition DereferenceTimeLimit :: nat where
  "DereferenceTimeLimit = 300 * 1000000"

text \<open>\<^verbatim>\<open>NewDatabaseWithConfig\<close>: only the meta root, with an empty children map.\<close>

definition metaRoot :: cachedNode where
  "metaRoot = \<lparr>node = NilNode, size' = 0, parents = 0, children = Some [],
     flushPrev = 0, flushNext = 0, version = 0\<rparr>"

definition NewDatabase :: "bool \<Rightarrow> bool \<Rightarrow> nat list \<Rightarrow> bool list \<Rightarrow> Database" where
  "NewDatabase withCache withPreimages clk flt =
     \<lparr>diskdb = Map.empty, freshNodes = {},
      cleans = (if withCache then Some Map.empty else None),
      dirties = [0 \<mapsto> metaRoot], oldest = 0, newest = 0, nodeVersion = 0, useless = [],
      preimages = (if withPreimages then Some [] else None),
      dirtiesSize = 0, childrenSize = 0, preimagesSize = 0,
      readers = 0, writer = False, clock = clk, faults = flt\<rparr>"

definition IncrVersion :: "Database \<Rightarrow> Database" where
  "IncrVersion db = db\<lparr>nodeVersion := nodeVersion db + 1\<rparr>"

definition insertFreshNode :: "hash \<Rightarrow> Database \<Rightarrow> Database" where
  "insertFreshNode h db = db\<lparr>freshNodes := insert h (freshNodes db)\<rparr>"

definition resetFreshNode :: "Database \<Rightarrow> Database" where
  "resetFreshNode db = db\<lparr>freshNodes := {}\<rparr>"

subsection \<open>insert\<close>

text \<open>
  \<^verbatim>\<open>db.dirties[k].flushNext = v\<close> and \<^verbatim>\<open>db.dirties[k].flushPrev = v\<close>: a nil
  pointer dereference when \<open>k\<close> is not in the map.
\<close>

definition set_flushNext :: "hash \<Rightarrow> hash \<Rightarrow> Database \<Rightarrow> crash + Database" where
  "set_flushNext k v db =
     (case dirties db k of
        None \<Rightarrow> Inl NilPointer
      | Some e \<Rightarrow> Inr (db\<lparr>dirties := (dirties db)(k \<mapsto> e\<lparr>flushNext := v\<rparr>)\<rparr>))"

definition set_flushPrev :: "hash \<Rightarrow> hash \<Rightarrow> Database \<Rightarrow> crash + Database" where
  "set_flushPrev k v db =
     (case dirties db k of
        None \<Rightarrow> Inl NilPointer
      | Some e \<Rightarrow> Inr (db\<lparr>dirties := (dirties db)(k \<mapsto> e\<lparr>flushPrev := v\<rparr>)\<rparr>))"

text \<open>
  \<^verbatim>\<open>insert\<close>. The size is stored as \<^verbatim>\<open>uint16(size)\<close>, and the sum
  \<^verbatim>\<open>common.HashLength + entry.size\<close> is computed in uint16 before it is converted.
\<close>

definition insert_db :: "hash \<Rightarrow> int \<Rightarrow> node \<Rightarrow> Database \<Rightarrow> crash + Database" where
  "insert_db h sz n db =
     (case dirties db h of
        Some e \<Rightarrow> Inr db
      | None \<Rightarrow>
         (case simplifyNode n of
            None \<Rightarrow> Inl UnknownNodeType
          | Some sn \<Rightarrow>
             (let entry = \<lparr>node = sn, size' = word_of_int sz, parents = 0, children = None,
                           flushPrev = newest db, flushNext = 0, version = nodeVersion db\<rparr>;
                  db1 = db\<lparr>dirties := (dirties db)(h \<mapsto> entry)\<rparr>
              in andThen
                   (if oldest db1 = 0 then Inr (db1\<lparr>oldest := h, newest := h\<rparr>)
                    else andThen (set_flushNext (newest db1) h db1) (\<lambda>db2. Inr (db2\<lparr>newest := h\<rparr>)))
                   (\<lambda>db3. Inr (db3\<lparr>dirtiesSize := dirtiesSize db3
                                     + int (unat (word_of_nat HashLength + size' entry))\<rparr>)))))"

text \<open>\<^verbatim>\<open>insertPreimage\<close>.\<close>

definition insertPreimage :: "hash \<Rightarrow> bytes \<Rightarrow> Database \<Rightarrow> Database" where
  "insertPreimage h preimage db =
     (case preimages db of
        None \<Rightarrow> db
      | Some ps \<Rightarrow>
         (case map_of ps h of
            Some p \<Rightarrow> db
          | None \<Rightarrow> db\<lparr>preimages := Some (ps @ [(h, preimage)]),
                       preimagesSize := preimagesSize db + int (HashLength + length preimage)\<rparr>))"

subsection \<open>Node\<close>

text \<open>\<^verbatim>\<open>cachedNode.rlp\<close>.\<close>

definition rlp :: "extern \<Rightarrow> cachedNode \<Rightarrow> bytes" where
  "rlp X n = (case node n of RawNode b \<Rightarrow> b | other \<Rightarrow> nodeToBytes X other)"

text \<open>
  Modelled from the spec: the clean cache (\<^verbatim>\<open>fastcache.Cache\<close> is missing), a map from
  hash to bytes when one is configured. \<^verbatim>\<open>Get\<close> yields no bytes for a hash it does
  not hold; \<^verbatim>\<open>rawdb.ReadTrieNode\<close> likewise for the disk.
\<close>

definition cleans_Get :: "Database \<Rightarrow> hash \<Rightarrow> bytes" where
  "cleans_Get db h =
     (case cleans db of None \<Rightarrow> [] | Some c \<Rightarrow> (case c h of None \<Rightarrow> [] | Some enc \<Rightarrow> enc))"

definition cleans_Set :: "hash \<Rightarrow> bytes \<Rightarrow> Database \<Rightarrow> Database" where
  "cleans_Set h enc db =
     (case cleans db of None \<Rightarrow> db | Some c \<Rightarrow> db\<lparr>cleans := Some (c(h \<mapsto> enc))\<rparr>)"

definition cleans_Del :: "hash \<Rightarrow> Database \<Rightarrow> Database" where
  "cleans_Del h db =
     (case cleans db of None \<Rightarrow> db | Some c \<Rightarrow> db\<lparr>cleans := Some (c(h := None))\<rparr>)"

definition ReadTrieNode :: "Database \<Rightarrow> hash \<Rightarrow> bytes" where
  "ReadTrieNode db h = (case diskdb db (TrieKey h) of None \<Rightarrow> [] | Some enc \<Rightarrow> enc)"

text \<open>
  \<^verbatim>\<open>Database.Node\<close>: the meta root is refused first, then clean cache, dirty
  store (under the read lock), disk; a disk hit is copied into the clean cache.
\<close>

definition Node :: "extern \<Rightarrow> hash \<Rightarrow> Database \<Rightarrow> crash + ((err + bytes) \<times> Database)" where
  "Node X h db =
     (if h = 0 then Inr (Inl NotFound, db)
      else if cleans db \<noteq> None \<and> cleans_Get db h \<noteq> [] then Inr (Inr (cleans_Get db h), db)
      else andThen (RLock db) (\<lambda>db1.
           let dirty = dirties db1 h in
           andThen (RUnlock db1) (\<lambda>db2.
             (case dirty of
                Some d \<Rightarrow> Inr (Inr (rlp X d), db2)
              | None \<Rightarrow>
                 (let enc = ReadTrieNode db2 h in
                  if length enc \<noteq> 0 then Inr (Inr enc, cleans_Set h enc db2)
                  else Inr (Inl NotFound, db2))))))"

subsection \<open>reference\<close>

text \<open>The children map of a node: \<^verbatim>\<open>m[k]\<close> (zero when absent) and \<^verbatim>\<open>m[k]++\<close>.\<close>

definition childCount :: "(hash \<times> 16 word) list \<Rightarrow> hash \<Rightarrow> 16 word" where
  "childCount cs k = (case map_of cs k of None \<Rightarrow> 0 | Some c \<Rightarrow> c)"

fun childIncr :: "(hash \<times> 16 word) list \<Rightarrow> hash \<Rightarrow> (hash \<times> 16 word) list" where
  "childIncr [] k = [(k, 1)]"
| "childIncr ((k', c) # cs) k = (if k' = k then (k', c + 1) # cs else (k', c) # childIncr cs k)"

text \<open>
  The tail of \<^verbatim>\<open>reference\<close>, once the parent's children map exists:
  \<^verbatim>\<open>node.parents++\<close>, \<^verbatim>\<open>db.dirties[parent].children[child]++\<close> and the size
  accounting of a first edge. \<^verbatim>\<open>node\<close> is the pointer stored under \<open>child\<close>.
\<close>

definition addReference :: "hash \<Rightarrow> hash \<Rightarrow> Database \<Rightarrow> crash + Database" where
  "addReference child parent db =
     (case dirties db child of
        None \<Rightarrow> Inl NilPointer
      | Some nd \<Rightarrow>
         (let db1 = db\<lparr>dirties := (dirties db)(child \<mapsto> nd\<lparr>parents := parents nd + 1\<rparr>)\<rparr> in
          case dirties db1 parent of
            None \<Rightarrow> Inl NilPointer
          | Some p \<Rightarrow>
             (let cs = childIncr (case children p of None \<Rightarrow> [] | Some cs0 \<Rightarrow> cs0) child;
                  db2 = db1\<lparr>dirties := (dirties db1)(parent \<mapsto> p\<lparr>children := Some cs\<rparr>)\<rparr>
              in Inr (if childCount cs child = 1
                      then db2\<lparr>childrenSize := childrenSize db2 + int (HashLength + 2)\<rparr>
                      else db2))))"

text \<open>\<^verbatim>\<open>reference\<close>, the private locked version of \<^verbatim>\<open>Reference\<close>.\<close>

definition reference :: "hash \<Rightarrow> hash \<Rightarrow> Database \<Rightarrow> crash + Database" where
  "reference child parent db =
     (case dirties db child of
        None \<Rightarrow> Inr db
      | Some nd \<Rightarrow>
         (case dirties db parent of
            None \<Rightarrow> Inl NilPointer
          | Some p \<Rightarrow>
             (case children p of
                None \<Rightarrow>
                  addReference child parent
                    (db\<lparr>dirties := (dirties db)(parent \<mapsto> p\<lparr>children := Some []\<rparr>),
                        childrenSize := childrenSize db + cachedNodeChildrenSize\<rparr>)
              | Some cs \<Rightarrow>
                  if map_of cs child \<noteq> None \<and> parent \<noteq> 0 then Inr db
                  else addReference child parent db)))"

definition Reference :: "hash \<Rightarrow> hash \<Rightarrow> Database \<Rightarrow> crash + Database" where
  "Reference child parent db =
     andThen (Lock db) (\<lambda>db1. andThen (reference child parent db1) Unlock)"

subsection \<open>forChilds, referenceVersion\<close>

text \<open>
  \<^verbatim>\<open>cachedNode.forChilds\<close>: first the keys of the explicit children map, then,
  unless the content is a raw blob, the hash nodes inside the content.
\<close>

definition forChilds :: "cachedNode \<Rightarrow> (hash \<Rightarrow> 's \<Rightarrow> crash + 's) \<Rightarrow> 's \<Rightarrow> crash + 's" where
  "forChilds n onChild s =
     andThen (forEach (case children n of None \<Rightarrow> [] | Some cs \<Rightarrow> map fst cs) onChild s)
       (\<lambda>s'. if is_rawNode (node n) then Inr s' else forGatherChildren (node n) onChild s')"

primrec referenceVersion :: "nat \<Rightarrow> hash \<Rightarrow> Database \<Rightarrow> crash + Database" where
  "referenceVersion 0 h db = Inl OutOfStack"
| "referenceVersion (Suc k) h db =
     (case dirties db h of
        None \<Rightarrow> Inr db
      | Some nd \<Rightarrow>
         andThen (forChilds nd (referenceVersion k) db) (\<lambda>db1.
           Inr (case dirties db1 h of
                  None \<Rightarrow> db1
                | Some e \<Rightarrow> db1\<lparr>dirties := (dirties db1)(h \<mapsto> e\<lparr>version := nodeVersion db1\<rparr>)\<rparr>)))"

definition ReferenceVersion :: "nat \<Rightarrow> hash \<Rightarrow> Database \<Rightarrow> crash + Database" where
  "ReferenceVersion fuel root db =
     andThen (RLock db) (\<lambda>db1. andThen (referenceVersion fuel root db1) RUnlock)"

subsection \<open>dereference\<close>

text \<open>
  The three-way splice that takes \<open>h\<close> out of the flush list, written out twice in
  the source (in \<^verbatim>\<open>dereference\<close> and in \<^verbatim>\<open>cleaner.Put\<close>): the \<^verbatim>\<open>switch\<close> tests
  \<^verbatim>\<open>db.oldest\<close> first, then \<^verbatim>\<open>db.newest\<close>.
\<close>

definition unlink :: "hash \<Rightarrow> cachedNode \<Rightarrow> Database \<Rightarrow> crash + Database" where
  "unlink h nd db =
     (if h = oldest db then
        set_flushPrev (flushNext nd) 0 (db\<lparr>oldest := flushNext nd\<rparr>)
      else if h = newest db then
        set_flushNext (flushPrev nd) 0 (db\<lparr>newest := flushPrev nd\<rparr>)
      else
        andThen (set_flushNext (flushPrev nd) (flushNext nd) db)
          (set_flushPrev (flushNext nd) (flushPrev nd)))"

text \<open>
  The state \<^verbatim>\<open>dereference\<close> works on: the database and the local set \<^verbatim>\<open>useless\<close>
  that the callback of \<^verbatim>\<open>DereferenceDB\<close> captures.
\<close>

type_synonym frame = "Database \<times> hash set"

primrec dereference ::
  "nat \<Rightarrow> hash \<Rightarrow> (hash \<Rightarrow> frame \<Rightarrow> frame) option \<Rightarrow> nat \<Rightarrow> frame \<Rightarrow> crash + frame" where
  "dereference 0 h clearFn start fr = Inl OutOfStack"
| "dereference (Suc k) h clearFn start fr =
     (if h \<in> freshNodes (fst fr) then Inr fr
      else
        (case dirties (fst fr) h of
           None \<Rightarrow> Inr fr
         | Some nd \<Rightarrow>
            (let now = fst (Now (fst fr)); db1 = snd (Now (fst fr)) in
             if start + DereferenceTimeLimit < now then Inr (db1, snd fr)
             else if version nd < nodeVersion db1 then
               andThen (unlink h nd db1) (\<lambda>db2.
               andThen (forChilds nd (\<lambda>c. dereference k c clearFn start) (db2, snd fr)) (\<lambda>fr3.
                 (let fr4 = ((fst fr3)\<lparr>dirties := (dirties (fst fr3))(h := None)\<rparr>, snd fr3);
                      fr5 = (case clearFn of
                               None \<Rightarrow> fr4
                             | Some f \<Rightarrow> if is_rawNode (node nd) then fr4 else f h fr4);
                      db5 = fst fr5;
                      db6 = db5\<lparr>dirtiesSize := dirtiesSize db5
                                    - int (HashLength + unat (size' nd))\<rparr>;
                      db7 = (if children nd \<noteq> None
                             then db6\<lparr>childrenSize := childrenSize db6 - cachedNodeChildrenSize\<rparr>
                             else db6)
                  in Inr (db7, snd fr5))))
             else Inr (db1, snd fr))))"

definition cleanFn :: "hash \<Rightarrow> frame \<Rightarrow> frame" where
  "cleanFn h fr = (cleans_Del h (fst fr), snd fr)"

definition clearFn :: "hash \<Rightarrow> frame \<Rightarrow> frame" where
  "clearFn h fr = (cleans_Del h (fst fr), insert h (snd fr))"

definition Dereference :: "nat \<Rightarrow> hash \<Rightarrow> Database \<Rightarrow> crash + Database" where
  "Dereference fuel root db =
     (if root = 0 then Inr db
      else
        andThen (Lock db) (\<lambda>db1.
        andThen (dereference fuel root (Some cleanFn) (fst (Now db1)) (snd (Now db1), {}))
          (\<lambda>fr. Unlock (fst fr))))"

definition DereferenceDB :: "nat \<Rightarrow> hash \<Rightarrow> Database \<Rightarrow> crash + Database" where
  "DereferenceDB fuel root db =
     (if root = 0 then Inr db
      else
        andThen (Lock (snd (Now db))) (\<lambda>db1.
        andThen (dereference fuel root (Some clearFn) (fst (Now db)) (db1, {})) (\<lambda>fr.
        andThen (Unlock (fst fr)) (\<lambda>db2. Inr (db2\<lparr>useless := useless db2 @ [snd fr]\<rparr>)))))"

subsection \<open>The disk batch\<close>

definition ValueSize :: "batch \<Rightarrow> nat" where
  "ValueSize b = sum_list (map (\<lambda>kv. length (snd kv)) b)"

definition Write :: "batch \<Rightarrow> Database \<Rightarrow> err option \<times> Database" where
  "Write b db =
     (case faults db of
        [] \<Rightarrow> (None, db\<lparr>diskdb := foldl (\<lambda>d kv. d(fst kv \<mapsto> snd kv)) (diskdb db) b\<rparr>)
      | f # fs \<Rightarrow>
         if f then (Some WriteFailed, db\<lparr>faults := fs\<rparr>)
         else (None, db\<lparr>faults := fs,
                         diskdb := foldl (\<lambda>d kv. d(fst kv \<mapsto> snd kv)) (diskdb db) b\<rparr>))"

definition WritePreimages :: "batch \<Rightarrow> (hash \<times> bytes) list \<Rightarrow> batch" where
  "WritePreimages b ps = b @ map (\<lambda>hp. (PreimageKey (fst hp), snd hp)) ps"

definition WriteTrieNode :: "batch \<Rightarrow> hash \<Rightarrow> bytes \<Rightarrow> batch" where
  "WriteTrieNode b h enc = b @ [(TrieKey h, enc)]"

text \<open>
  The hash \<^verbatim>\<open>cleaner.Put\<close> reads from a key with \<^verbatim>\<open>common.BytesToHash\<close>: the key of a
  trie node is the hash; the key of a preimage ends in the hash, and the
  conversion crops from the left.
\<close>

fun keyHash :: "key \<Rightarrow> hash" where
  "keyHash (TrieKey h) = h"
| "keyHash (PreimageKey h) = h"

subsection \<open>Cap\<close>

definition nchildren :: "cachedNode \<Rightarrow> nat" where
  "nchildren n = (case children n of None \<Rightarrow> 0 | Some cs \<Rightarrow> length cs)"

text \<open>What one step of the scan takes off the running size.\<close>

definition flushedSize :: "extern \<Rightarrow> cachedNode \<Rightarrow> int" where
  "flushedSize X nd =
     int (HashLength + unat (size' nd) + cachedNodeSize X)
     + (if children nd \<noteq> None
        then cachedNodeChildrenSize + int (nchildren nd * (HashLength + 2)) else 0)"

lemma flushedSize_pos: "0 < flushedSize X nd"
proof -
  have "0 < HashLength + unat (size' nd) + cachedNodeSize X"
    by (simp add: HashLength_def)
  then have "(0::int) < int (HashLength + unat (size' nd) + cachedNodeSize X)"
    by (simp only: of_nat_0_less_iff)
  moreover have "(0::int) \<le> (if children nd \<noteq> None
        then cachedNodeChildrenSize + int (nchildren nd * (HashLength + 2)) else 0)"
    by (simp add: cachedNodeChildrenSize_def)
  ultimately show ?thesis
    unfolding flushedSize_def by linarith
qed

text \<open>
  The first loop of \<^verbatim>\<open>Cap\<close>: it writes the flush list into the batch from the
  oldest entry on while the size is over the limit. The result is the error of
  a failed write (if any), the batch, the cursor, and the database.
\<close>

function cap_scan ::
  "extern \<Rightarrow> int \<Rightarrow> batch \<Rightarrow> int \<Rightarrow> hash \<Rightarrow> Database
     \<Rightarrow> crash + (err option \<times> batch \<times> hash \<times> Database)" where
  "cap_scan X limit b sz old db =
     (if sz > limit \<and> old \<noteq> 0 then
        (case dirties db old of
           None \<Rightarrow> Inl NilPointer
         | Some nd \<Rightarrow>
            if ValueSize (WriteTrieNode b old (rlp X nd)) \<ge> IdealBatchSize X then
              (if fst (Write (WriteTrieNode b old (rlp X nd)) db) \<noteq> None then
                 andThen (RUnlock (snd (Write (WriteTrieNode b old (rlp X nd)) db)))
                   (\<lambda>db2. Inr (fst (Write (WriteTrieNode b old (rlp X nd)) db),
                               WriteTrieNode b old (rlp X nd), old, db2))
               else cap_scan X limit [] (sz - flushedSize X nd) (flushNext nd)
                      (snd (Write (WriteTrieNode b old (rlp X nd)) db)))
            else cap_scan X limit (WriteTrieNode b old (rlp X nd)) (sz - flushedSize X nd)
                   (flushNext nd) db)
      else Inr (None, b, old, db))"
  by pat_completeness auto
termination
proof (relation "measure (\<lambda>(X, limit, b, sz, old, db). nat (sz - limit))")
  show "wf (measure (\<lambda>(X, limit, b, sz, old, db). nat (sz - limit)))"
    by simp
next
  fix X :: extern and limit sz :: int and b :: batch and old :: hash
    and db :: Database and nd :: cachedNode
  assume "limit < sz \<and> old \<noteq> 0"
  then show "((X, limit, [], sz - flushedSize X nd, flushNext nd,
      snd (Write (WriteTrieNode b old (rlp X nd)) db)), X, limit, b, sz, old, db)
      \<in> measure (\<lambda>(X, limit, b, sz, old, db). nat (sz - limit))"
    using flushedSize_pos [of X nd] by simp
next
  fix X :: extern and limit sz :: int and b :: batch and old :: hash
    and db :: Database and nd :: cachedNode
  assume "limit < sz \<and> old \<noteq> 0"
  then show "((X, limit, WriteTrieNode b old (rlp X nd), sz - flushedSize X nd, flushNext nd, db),
      X, limit, b, sz, old, db)
      \<in> measure (\<lambda>(X, limit, b, sz, old, db). nat (sz - limit))"
    using flushedSize_pos [of X nd] by simp
qed

text \<open>The second loop of \<^verbatim>\<open>Cap\<close>: it deletes the entries up to the cursor.\<close>

function cap_evict :: "hash \<Rightarrow> Database \<Rightarrow> crash + Database" where
  "cap_evict stop db =
     (if oldest db \<noteq> stop then
        (case dirties db (oldest db) of
           None \<Rightarrow> Inl NilPointer
         | Some nd \<Rightarrow>
            cap_evict stop
              (db\<lparr>dirties := (dirties db)(oldest db := None),
                  oldest := flushNext nd,
                  dirtiesSize := dirtiesSize db - int (HashLength + unat (size' nd)),
                  childrenSize := childrenSize db
                    - (if children nd \<noteq> None
                       then cachedNodeChildrenSize + int (nchildren nd * (HashLength + 2))
                       else 0)\<rparr>))
      else Inr db)"
  by pat_completeness auto
termination
proof (relation "measure (\<lambda>(stop, db). card (dom (dirties db)))")
  show "wf (measure (\<lambda>(stop, db). card (dom (dirties db))))"
    by simp
next
  fix stop :: hash and db :: Database and nd :: cachedNode
  assume "dirties db (oldest db) = Some nd"
  then have "oldest db \<in> dom (dirties db)"
    by blast
  then have "card (dom (dirties db) - {oldest db}) < card (dom (dirties db))"
    by (intro card_Diff1_less) auto
  then show "((stop,
       db\<lparr>dirties := (dirties db)(oldest db := None), oldest := flushNext nd,
           dirtiesSize := dirtiesSize db - int (HashLength + unat (size' nd)),
           childrenSize := childrenSize db
             - (if children nd \<noteq> None
                then cachedNodeChildrenSize + int (nchildren nd * (HashLength + 2))
                else 0)\<rparr>),
      stop, db) \<in> measure (\<lambda>(stop, db). card (dom (dirties db)))"
    by simp
qed

definition resetPreimages :: "Database \<Rightarrow> Database" where
  "resetPreimages db =
     (case preimages db of None \<Rightarrow> db | Some ps \<Rightarrow> db\<lparr>preimages := Some [], preimagesSize := 0\<rparr>)"

text \<open>
  The preimage flush at the head of \<^verbatim>\<open>Cap\<close>, when the preimage cache is over four
  megabytes: the error of a failed write (if any), the batch, the database.
\<close>

definition cap_preimages :: "extern \<Rightarrow> Database \<Rightarrow> err option \<times> batch \<times> Database" where
  "cap_preimages X db =
     (if preimagesSize db > 4 * 1024 * 1024 then
        (case preimages db of
           None \<Rightarrow> (None, [], db)
         | Some ps \<Rightarrow>
            if ValueSize (WritePreimages [] ps) > IdealBatchSize X then
              (if fst (Write (WritePreimages [] ps) db) \<noteq> None
               then (fst (Write (WritePreimages [] ps) db), WritePreimages [] ps,
                     snd (Write (WritePreimages [] ps) db))
               else (None, [], snd (Write (WritePreimages [] ps) db)))
            else (None, WritePreimages [] ps, db))
      else (None, [], db))"

definition Cap :: "extern \<Rightarrow> int \<Rightarrow> Database \<Rightarrow> crash + (err option \<times> Database)" where
  "Cap X limit db =
     (case dirties db 0 of
        None \<Rightarrow> Inl NilPointer
      | Some meta \<Rightarrow>
         (let size0 = dirtiesSize db
                      + (int (card (dom (dirties db))) - 1) * int (cachedNodeSize X)
                      + childrenSize db - int (nchildren meta * (HashLength + 2));
              flushPreimages = (preimagesSize db > 4 * 1024 * 1024);
              pre = cap_preimages X db
          in if fst pre \<noteq> None then Inr (fst pre, snd (snd pre))
             else
               andThen (cap_scan X limit (fst (snd pre)) size0 (oldest db) (snd (snd pre)))
                 (\<lambda>r. case r of (e, b, old, db2) \<Rightarrow>
                    if e \<noteq> None then Inr (e, db2)
                    else if fst (Write b db2) \<noteq> None then Inr (Write b db2)
                    else
                      andThen (Lock (snd (Write b db2))) (\<lambda>db4.
                      andThen (cap_evict old (if flushPreimages then resetPreimages db4 else db4))
                        (\<lambda>db6.
                      andThen (if oldest db6 \<noteq> 0 then set_flushPrev (oldest db6) 0 db6
                               else Inr db6) (\<lambda>db7.
                      andThen (Unlock db7) (\<lambda>db8. Inr (None, db8))))))))"

subsection \<open>Commit\<close>

text \<open>\<^verbatim>\<open>cleaner.Put\<close>, with \<open>uncache\<close> the field of the cleaner.\<close>

definition cleaner_Put :: "bool \<Rightarrow> hash \<Rightarrow> bytes \<Rightarrow> Database \<Rightarrow> crash + Database" where
  "cleaner_Put uncache h enc db =
     (if uncache then
        (case dirties db h of
           None \<Rightarrow> Inr db
         | Some nd \<Rightarrow>
            andThen (unlink h nd db) (\<lambda>db1.
              Inr (cleans_Set h enc
                (db1\<lparr>dirties := (dirties db1)(h := None),
                     dirtiesSize := dirtiesSize db1 - int (HashLength + unat (size' nd))
                       - (if children nd \<noteq> None
                          then cachedNodeChildrenSize + int (nchildren nd * (HashLength + 2))
                          else 0)\<rparr>))))
      else Inr (cleans_Set h enc db))"

definition Replay :: "bool \<Rightarrow> batch \<Rightarrow> Database \<Rightarrow> crash + Database" where
  "Replay uncache b db = forEach b (\<lambda>kv. cleaner_Put uncache (keyHash (fst kv)) (snd kv)) db"

text \<open>
  \<^verbatim>\<open>commit\<close>: the Go error it returns, the database and the batch. The callback
  handed to \<^verbatim>\<open>forChilds\<close> recurses only while no error has been seen.
\<close>

primrec commit ::
  "nat \<Rightarrow> extern \<Rightarrow> bool \<Rightarrow> hash \<Rightarrow> Database \<times> batch
     \<Rightarrow> crash + (err option \<times> Database \<times> batch)" where
  "commit 0 X uncache h st = Inl OutOfStack"
| "commit (Suc k) X uncache h st =
     (if h \<notin> freshNodes (fst st) then Inr (None, st)
      else
        (case dirties (fst st) h of
           None \<Rightarrow> Inr (None, st)
         | Some nd \<Rightarrow>
            andThen
              (forChilds nd
                 (\<lambda>c r. if fst r = None then commit k X uncache c (snd r) else Inr r)
                 (None, st))
              (\<lambda>r.
                 if fst r \<noteq> None then Inr r
                 else
                   (let db1 = fst (snd r);
                        b1 = WriteTrieNode (snd (snd r)) h (rlp X nd)
                    in if ValueSize b1 \<ge> IdealBatchSize X then
                         (if fst (Write b1 db1) \<noteq> None
                          then Inr (fst (Write b1 db1), snd (Write b1 db1), b1)
                          else
                            andThen (Lock (snd (Write b1 db1))) (\<lambda>db3.
                            andThen (Replay uncache b1 db3) (\<lambda>db4.
                            andThen (Unlock db4) (\<lambda>db5. Inr (None, db5, [])))))
                       else Inr (None, db1, b1)))))"

text \<open>
  The preimage flush at the head of \<^verbatim>\<open>Commit\<close>: all preimages are written, in one
  or two writes, and the batch is empty afterwards.
\<close>

definition commit_preimages :: "extern \<Rightarrow> Database \<Rightarrow> err option \<times> Database" where
  "commit_preimages X db =
     (case preimages db of
        None \<Rightarrow> (None, db)
      | Some ps \<Rightarrow>
         if ValueSize (WritePreimages [] ps) > IdealBatchSize X then
           (if fst (Write (WritePreimages [] ps) db) \<noteq> None
            then Write (WritePreimages [] ps) db
            else Write [] (snd (Write (WritePreimages [] ps) db)))
         else Write (WritePreimages [] ps) db)"

definition Commit ::
  "nat \<Rightarrow> extern \<Rightarrow> hash \<Rightarrow> bool \<Rightarrow> bool \<Rightarrow> Database \<Rightarrow> crash + (err option \<times> Database)" where
  "Commit fuel X root report uncache db =
     (if fst (commit_preimages X db) \<noteq> None then Inr (commit_preimages X db)
      else
        andThen (commit fuel X uncache root (snd (commit_preimages X db), [])) (\<lambda>r.
          case r of (e, db2, b) \<Rightarrow>
            if e \<noteq> None then Inr (e, db2)
            else if fst (Write b db2) \<noteq> None then Inr (Write b db2)
            else
              andThen (Lock (snd (Write b db2))) (\<lambda>db4.
              andThen (Replay uncache b db4) (\<lambda>db5.
              andThen (Unlock (resetFreshNode (resetPreimages db5))) (\<lambda>db6.
                Inr (None, db6))))))"

subsection \<open>What the properties speak about\<close>

text \<open>
  The sum the size accounting is meant to track: hash length plus stored size over
  every entry of the node store but the meta root.
\<close>

definition storeSize :: "Database \<Rightarrow> int" where
  "storeSize db =
     (\<Sum>h \<in> dom (dirties db) - {0}. int (HashLength + unat (size' (the (dirties db h)))))"

text \<open>The children map of a node as a list, empty when the map is nil.\<close>

definition kids :: "cachedNode \<Rightarrow> (hash \<times> 16 word) list" where
  "kids n = (case children n of None \<Rightarrow> [] | Some cs \<Rightarrow> cs)"

text \<open>
  Values for the external parameters used in examples: \<^verbatim>\<open>ethdb.IdealBatchSize\<close>
  is 100 KiB; the encoder and the reflected size are arbitrary.
\<close>

definition X0 :: extern where
  "X0 = \<lparr>nodeToBytes = (\<lambda>n. [1]), IdealBatchSize = 100 * 1024, cachedNodeSize = 100\<rparr>"

text \<open>
  Relations between the state before and after a run of \<open>dereference\<close>: the
  hashes whose entry went away and whose content is not a raw blob; a store
  that only lost entries (contents unchanged); and the relation the callback of
  \<^verbatim>\<open>DereferenceDB\<close> maintains between the two frames.
\<close>

definition removedNonRaw :: "Database \<Rightarrow> Database \<Rightarrow> hash set" where
  "removedNonRaw db db' =
     {h. \<exists>e. dirties db h = Some e \<and> dirties db' h = None \<and> \<not> is_rawNode (node e)}"

definition shrinks :: "Database \<Rightarrow> Database \<Rightarrow> bool" where
  "shrinks db db' = (\<forall>k e'. dirties db' k = Some e' \<longrightarrow> (\<exists>e. dirties db k = Some e \<and> node e = node e'))"

definition derefRel :: "frame \<Rightarrow> frame \<Rightarrow> bool" where
  "derefRel a b =
     (shrinks (fst a) (fst b)
      \<and> useless (fst b) = useless (fst a)
      \<and> snd b = snd a \<union> removedNonRaw (fst a) (fst b)
      \<and> (\<forall>h. cleans_Get (fst b) h
             = (if h \<in> removedNonRaw (fst a) (fst b) then [] else cleans_Get (fst a) h)))"

text \<open>Two databases that differ at most in flush-list links and cursors.\<close>

definition relinked :: "Database \<Rightarrow> Database \<Rightarrow> bool" where
  "relinked db db' =
     (cleans db' = cleans db \<and> useless db' = useless db
      \<and> (\<forall>k. map_option (\<lambda>e. e\<lparr>flushPrev := 0, flushNext := 0\<rparr>) (dirties db' k)
             = map_option (\<lambda>e. e\<lparr>flushPrev := 0, flushNext := 0\<rparr>) (dirties db k)))"

text \<open>
  A database with one node under hash 1, already written to disk and copied to
  the clean cache by a commit without uncaching, and stale after a version bump.
\<close>

definition staleDB :: "node \<Rightarrow> Database" where
  "staleDB n =
     \<lparr>diskdb = [TrieKey 1 \<mapsto> rlp X0 \<lparr>node = n, size' = 1, parents = 0, children = None,
                 flushPrev = 0, flushNext = 0, version = 0\<rparr>],
      freshNodes = {},
      cleans = Some [1 \<mapsto> rlp X0 \<lparr>node = n, size' = 1, parents = 0, children = None,
                 flushPrev = 0, flushNext = 0, version = 0\<rparr>],
      dirties = [0 \<mapsto> metaRoot,
                 1 \<mapsto> \<lparr>node = n, size' = 1, parents = 0, children = None,
                        flushPrev = 0, flushNext = 0, version = 0\<rparr>],
      oldest = 1, newest = 1, nodeVersion = 1, useless = [], preimages = Some [],
      dirtiesSize = 33, childrenSize = 0, preimagesSize = 0,
      readers = 0, writer = False, clock = [], faults = []\<rparr>"


section \<open>Properties\<close>

subsection \<open>insert of a cached hash\<close>

text \<open>
  Claim C9. Calling \<^verbatim>\<open>insert(hash, size, node)\<close> when the hash is already in the
  node store is a no-op: the call returns without a panic and the whole database
  (node store, flush-list links, the oldest and newest cursors, dirtiesSize and
  every other field) is the one it was called on, whatever size and node are
  passed.
\<close>

theorem insert_present_noop:
  "dirties db h = Some e \<Longrightarrow> insert_db h sz n db = Inr db"
  by (simp add: insert_db_def)

theorem insert_present_noop_witness:
  "dirties (NewDatabase False True [] []) 0 = Some metaRoot
   \<and> insert_db 0 7 (ValueNode [1]) (NewDatabase False True [] []) = Inr (NewDatabase False True [] [])"
proof -
  have h: "dirties (NewDatabase False True [] []) 0 = Some metaRoot"
    by (simp add: NewDatabase_def)
  show ?thesis
    using h insert_present_noop [OF h, of 7 "ValueNode [1]"] by simp
qed

subsection \<open>Evaluation of examples\<close>

lemmas eval_defs =
  andThen_def insert_db_def NewDatabase_def Reference_def reference_def Lock_def Unlock_def
  addReference_def Dereference_def IncrVersion_def metaRoot_def Let_def Now_def unlink_def
  set_flushPrev_def set_flushNext_def forChilds_def cleanFn_def cleans_Del_def HashLength_def
  childCount_def DereferenceTimeLimit_def cachedNodeChildrenSize_def insertFreshNode_def
  Commit_def commit_preimages_def WritePreimages_def WriteTrieNode_def ValueSize_def Write_def
  Replay_def cleaner_Put_def cleans_Set_def resetFreshNode_def resetPreimages_def nchildren_def
  rlp_def RUnlock_def RLock_def Cap_def cap_preimages_def

subsection \<open>reference\<close>

lemma childCount_childIncr: "childCount (childIncr cs k) k = childCount cs k + 1"
  by (induction cs) (auto simp: childCount_def)

lemma childCount_Nil: "childCount [] k = 0"
  by (simp add: childCount_def)

lemma childCount_single: "childCount [(k, v)] k = v"
  by (simp add: childCount_def)

lemma reference_absent: "dirties db child = None \<Longrightarrow> reference child parent db = Inr db"
  by (simp add: reference_def)

lemma reference_duplicate:
  "parent \<noteq> 0 \<Longrightarrow> dirties db child = Some c \<Longrightarrow> dirties db parent = Some p
   \<Longrightarrow> children p = Some cs \<Longrightarrow> map_of cs child \<noteq> None
   \<Longrightarrow> reference child parent db = Inr db"
  by (simp add: reference_def)

lemma reference_metaroot:
  assumes "dirties db child = Some c" and "dirties db 0 = Some m"
  shows "\<exists>db' c' m'. reference child 0 db = Inr db'
           \<and> dirties db' child = Some c' \<and> parents c' = parents c + 1
           \<and> dirties db' 0 = Some m'
           \<and> childCount (kids m') child = childCount (kids m) child + 1"
  using assms
  by (cases "children m"; cases "child = 0")
     (auto simp: reference_def addReference_def Let_def kids_def childCount_childIncr
        childCount_Nil childCount_single)

text \<open>
  Claim C6. \<^verbatim>\<open>reference(child, parent)\<close>: if the child is not in the node store
  the call leaves the whole state unchanged; if the parent is a non-zero hash
  whose children map already holds the child, the call is a no-op; and with the
  zero-hash meta root as parent every call on a cached child adds one to
  \<^verbatim>\<open>children[child]\<close> of the meta root and one to the child's \<^verbatim>\<open>parents\<close>
  counter, duplicates included (both counters are machine integers: uint16 and
  uint32, so "adds one" is modulo their width).
\<close>

theorem reference_cases:
  "(dirties db child = None \<longrightarrow> reference child parent db = Inr db)
   \<and> (parent \<noteq> 0 \<and> dirties db child = Some c \<and> dirties db parent = Some p
        \<and> children p = Some cs \<and> map_of cs child \<noteq> None
      \<longrightarrow> reference child parent db = Inr db)
   \<and> (dirties db child = Some c \<and> dirties db 0 = Some m
      \<longrightarrow> (\<exists>db' c' m'. reference child 0 db = Inr db'
             \<and> dirties db' child = Some c' \<and> parents c' = parents c + 1
             \<and> dirties db' 0 = Some m'
             \<and> childCount (kids m') child = childCount (kids m) child + 1))"
  using reference_absent [of db child parent] reference_duplicate [of parent db child c p cs]
    reference_metaroot [of db child c m]
  by blast

text \<open>
  A state for the witness: node 1 cached, referenced twice from the meta root and
  once from node 2.
\<close>

theorem reference_cases_witness:
  "reference 9 2
     ((NewDatabase False True [] [])\<lparr>dirties :=
        [0 \<mapsto> metaRoot\<lparr>children := Some [(1, 2)]\<rparr>,
         1 \<mapsto> metaRoot\<lparr>children := None, parents := 3\<rparr>,
         2 \<mapsto> metaRoot\<lparr>children := Some [(1, 1)]\<rparr>]\<rparr>)
   = Inr ((NewDatabase False True [] [])\<lparr>dirties :=
        [0 \<mapsto> metaRoot\<lparr>children := Some [(1, 2)]\<rparr>,
         1 \<mapsto> metaRoot\<lparr>children := None, parents := 3\<rparr>,
         2 \<mapsto> metaRoot\<lparr>children := Some [(1, 1)]\<rparr>]\<rparr>)
   \<and> reference 1 2
     ((NewDatabase False True [] [])\<lparr>dirties :=
        [0 \<mapsto> metaRoot\<lparr>children := Some [(1, 2)]\<rparr>,
         1 \<mapsto> metaRoot\<lparr>children := None, parents := 3\<rparr>,
         2 \<mapsto> metaRoot\<lparr>children := Some [(1, 1)]\<rparr>]\<rparr>)
   = Inr ((NewDatabase False True [] [])\<lparr>dirties :=
        [0 \<mapsto> metaRoot\<lparr>children := Some [(1, 2)]\<rparr>,
         1 \<mapsto> metaRoot\<lparr>children := None, parents := 3\<rparr>,
         2 \<mapsto> metaRoot\<lparr>children := Some [(1, 1)]\<rparr>]\<rparr>)
   \<and> (\<exists>db' c' m'. reference 1 0
     ((NewDatabase False True [] [])\<lparr>dirties :=
        [0 \<mapsto> metaRoot\<lparr>children := Some [(1, 2)]\<rparr>,
         1 \<mapsto> metaRoot\<lparr>children := None, parents := 3\<rparr>,
         2 \<mapsto> metaRoot\<lparr>children := Some [(1, 1)]\<rparr>]\<rparr>) = Inr db'
       \<and> dirties db' 1 = Some c' \<and> parents c' = 4
       \<and> dirties db' 0 = Some m' \<and> childCount (kids m') 1 = 3)"
  using reference_cases [of
      "(NewDatabase False True [] [])\<lparr>dirties :=
        [0 \<mapsto> metaRoot\<lparr>children := Some [(1, 2)]\<rparr>,
         1 \<mapsto> metaRoot\<lparr>children := None, parents := 3\<rparr>,
         2 \<mapsto> metaRoot\<lparr>children := Some [(1, 1)]\<rparr>]\<rparr>"
      9 2 "metaRoot\<lparr>children := None, parents := 3\<rparr>"
      "metaRoot\<lparr>children := Some [(1, 1)]\<rparr>" "[(1, 1)]"
      "metaRoot\<lparr>children := Some [(1, 2)]\<rparr>"]
    reference_cases [of
      "(NewDatabase False True [] [])\<lparr>dirties :=
        [0 \<mapsto> metaRoot\<lparr>children := Some [(1, 2)]\<rparr>,
         1 \<mapsto> metaRoot\<lparr>children := None, parents := 3\<rparr>,
         2 \<mapsto> metaRoot\<lparr>children := Some [(1, 1)]\<rparr>]\<rparr>"
      1 2 "metaRoot\<lparr>children := None, parents := 3\<rparr>"
      "metaRoot\<lparr>children := Some [(1, 1)]\<rparr>" "[(1, 1)]"
      "metaRoot\<lparr>children := Some [(1, 2)]\<rparr>"]
  by (simp add: metaRoot_def kids_def childCount_def NewDatabase_def)

subsection \<open>Node\<close>

lemma Node_zero: "Node X 0 db = Inr (Inl NotFound, db)"
  by (simp add: Node_def)

lemma Node_nonzero:
  "h \<noteq> 0 \<Longrightarrow> \<not> writer db \<Longrightarrow>
    (\<exists>db'. Node X h db = Inr (Inl NotFound, db'))
     = (cleans_Get db h = [] \<and> dirties db h = None \<and> ReadTrieNode db h = [])"
  by (auto simp: Node_def andThen_def RLock_def RUnlock_def cleans_Get_def ReadTrieNode_def
        Let_def split: option.splits)

text \<open>
  Claim C10, as stated, fails for a hash whose value on disk is empty. Insert a raw
  blob of no bytes under hash 5, mark it fresh and commit it with uncaching: the
  disk then holds the key of hash 5 (with an empty value), and \<^verbatim>\<open>Node(5)\<close> returns
  "not found" although the hash is not absent from disk.
\<close>

theorem Node_not_found_for_empty_blob_on_disk:
  "(case andThen (insert_db 5 0 (RawNode []) (NewDatabase True True [] [])) (\<lambda>db.
          Commit (Suc 0) X0 5 False True (insertFreshNode 5 db)) of
      Inr (None, db) \<Rightarrow>
        diskdb db (TrieKey 5) = Some [] \<and> Node X0 5 db = Inr (Inl NotFound, db)
    | other \<Rightarrow> False)"
  by (simp add: eval_defs X0_def Node_def cleans_Get_def ReadTrieNode_def)

text \<open>
  Claim C10, amended. \<^verbatim>\<open>Node(hash)\<close> with the zero hash returns "not found" and
  leaves the database as it is, whatever the clean cache, the node store (where
  the meta root lives under the zero hash) and the disk hold; for a non-zero hash,
  called with the write lock free, "not found" is returned exactly when the clean
  cache yields no bytes for the hash, the node store has no entry for it and the
  disk yields no bytes for it (a key stored with an empty value yields no bytes).
\<close>

theorem Node_not_found:
  "Node X 0 db = Inr (Inl NotFound, db)
   \<and> (h \<noteq> 0 \<and> \<not> writer db \<longrightarrow>
        ((\<exists>db'. Node X h db = Inr (Inl NotFound, db'))
          = (cleans_Get db h = [] \<and> dirties db h = None \<and> ReadTrieNode db h = [])))"
  using Node_zero [of X db] Node_nonzero [of h db X] by blast

theorem Node_not_found_witness:
  "Node X0 0 (NewDatabase True True [] []) = Inr (Inl NotFound, NewDatabase True True [] [])
   \<and> (\<exists>db'. Node X0 5 (NewDatabase True True [] []) = Inr (Inl NotFound, db'))
   \<and> cleans_Get (NewDatabase True True [] []) 5 = []
   \<and> dirties (NewDatabase True True [] []) 5 = None
   \<and> ReadTrieNode (NewDatabase True True [] []) 5 = []"
proof -
  have a: "cleans_Get (NewDatabase True True [] []) 5 = []
      \<and> dirties (NewDatabase True True [] []) 5 = None
      \<and> ReadTrieNode (NewDatabase True True [] []) 5 = []"
    by (simp add: NewDatabase_def cleans_Get_def ReadTrieNode_def)
  have b: "(5 :: hash) \<noteq> 0 \<and> \<not> writer (NewDatabase True True [] [])"
    by (simp add: NewDatabase_def)
  show ?thesis
    using a b Node_not_found [of X0 "NewDatabase True True [] []" 5] by blast
qed

subsection \<open>The meta root\<close>

text \<open>
  Claim C7 (the code departs from it). From a fresh database: insert node 1,
  \<^verbatim>\<open>Reference(child = zero hash, parent = 1)\<close>, \<^verbatim>\<open>IncrVersion\<close>, then
  \<^verbatim>\<open>Dereference(1)\<close>. The recursion of \<^verbatim>\<open>dereference\<close> reaches the zero hash as a
  child of node 1, finds the meta root stale (version 0 below 1) and deletes it:
  the node store ends empty.
\<close>

theorem dereference_deletes_metaRoot:
  "andThen (insert_db 1 10 (ValueNode [1]) (NewDatabase False True [] [])) (\<lambda>db.
   andThen (Reference 0 1 db) (\<lambda>db.
   Dereference (Suc (Suc (Suc 0))) 1 (IncrVersion db)))
   = Inr \<lparr>diskdb = Map.empty, freshNodes = {}, cleans = None, dirties = Map.empty,
          oldest = 0, newest = 1, nodeVersion = 1, useless = [], preimages = Some [],
          dirtiesSize = - 32, childrenSize = - 14, preimagesSize = 0,
          readers = 0, writer = False, clock = [], faults = []\<rparr>"
  by (simp add: eval_defs)

subsection \<open>Size accounting\<close>

text \<open>
  Claim C1 (the code departs from it). From a fresh database: insert nodes 1 and 2
  (sizes 10 and 20), \<^verbatim>\<open>Reference(child = 2, parent = 1)\<close>, mark node 1 fresh and
  \<^verbatim>\<open>Commit(1, false, true)\<close>. \<^verbatim>\<open>cleaner.Put\<close> removes node 1, whose children map is
  not nil, and takes the 48 + 34 bytes of that map off \<^verbatim>\<open>dirtiesSize\<close> instead of
  \<^verbatim>\<open>childrenSize\<close>: \<^verbatim>\<open>dirtiesSize\<close> ends at -30 while the store holds 32 + 20 = 52
  bytes, and \<^verbatim>\<open>childrenSize\<close> stays at 82 for a store without children maps.
\<close>

theorem commit_uncache_breaks_dirtiesSize:
  "(case andThen (insert_db 1 10 (ValueNode [1]) (NewDatabase False True [] [])) (\<lambda>db.
         andThen (insert_db 2 20 (ValueNode [2]) db) (\<lambda>db.
         andThen (Reference 2 1 db) (\<lambda>db.
         Commit (Suc (Suc 0)) X0 1 False True (insertFreshNode 1 db)))) of
      Inr (None, db) \<Rightarrow>
        dirtiesSize db = - 30 \<and> storeSize db = 52 \<and> childrenSize db = 82
        \<and> dom (dirties db) = {0, 2}
    | other \<Rightarrow> False)"
  by (simp add: eval_defs X0_def storeSize_def insert_commute)

subsection \<open>Cap and a failing write\<close>

text \<open>
  Claim C2 (the code departs from it). A database holding one node of 100 KiB,
  a disk whose next write fails, \<^verbatim>\<open>Cap(0)\<close>: the batch reaches the ideal size
  inside the loop, the write fails, and the error path calls
  \<^verbatim>\<open>db.lock.RUnlock()\<close> although \<^verbatim>\<open>Cap\<close> holds no read lock there. That is Go's
  fatal error "sync: RUnlock of unlocked RWMutex": no error is returned.
\<close>

theorem Cap_write_failure_in_loop_is_fatal:
  "andThen (insert_db 1 102400 (RawNode (replicate 102400 0)) (NewDatabase False True [] [True]))
     (Cap X0 0) = Inl RUnlockOfUnlocked"
  by (simp add: eval_defs X0_def)

subsection \<open>Iterating over children preserves a preorder\<close>

lemma forEach_rel:
  assumes r: "\<And>s. R s s" and t: "\<And>a b c. R a b \<Longrightarrow> R b c \<Longrightarrow> R a c"
    and st: "\<And>x s s'. f x s = Inr s' \<Longrightarrow> R s s'"
  shows "forEach xs f s = Inr s' \<Longrightarrow> R s s'"
proof (induction xs arbitrary: s)
  case Nil
  then show ?case using r by simp
next
  case (Cons x xs)
  then obtain s1 where a: "f x s = Inr s1" and b: "forEach xs f s1 = Inr s'"
    by (auto split: sum.splits)
  show ?case using t [OF st [OF a] Cons.IH [OF b]] .
qed

lemma forGather_rel_aux:
  assumes r: "\<And>s. R s s" and t: "\<And>a b c. R a b \<Longrightarrow> R b c \<Longrightarrow> R a c"
  shows "(\<forall>x s s'. f x s = Inr s' \<longrightarrow> R s s') \<Longrightarrow> forGatherChildren n f s = Inr s' \<Longrightarrow> R s s'"
    and "(\<forall>x s s'. f x s = Inr s' \<longrightarrow> R s s') \<Longrightarrow> forGatherList i cs f s = Inr s' \<Longrightarrow> R s s'"
proof (induction n f s and i cs f s arbitrary: s' and s' rule: forGatherChildren_forGatherList.induct)
  case (11 i c cs onChild s)
  then obtain s1 where a: "forGatherChildren c onChild s = Inr s1"
    and b: "forGatherList i cs onChild s1 = Inr s'"
    by (auto split: sum.splits)
  show ?case using t [OF "11.IH"(1) [OF "11.prems"(1) a] "11.IH"(2) [OF a "11.prems"(1) b]] .
qed (use r in auto)

lemma forGather_rel:
  assumes r: "\<And>s. R s s" and t: "\<And>a b c. R a b \<Longrightarrow> R b c \<Longrightarrow> R a c"
    and st: "\<And>x s s'. f x s = Inr s' \<Longrightarrow> R s s'"
    and g: "forGatherChildren n f s = Inr s'"
  shows "R s s'"
proof (rule forGather_rel_aux(1) [where R = R and f = f and n = n])
  show "\<And>s. R s s" by (rule r)
  show "\<And>a b c. R a b \<Longrightarrow> R b c \<Longrightarrow> R a c" by (rule t)
  show "\<forall>x s s'. f x s = Inr s' \<longrightarrow> R s s'" using st by blast
  show "forGatherChildren n f s = Inr s'" by (rule g)
qed

lemma forChilds_rel:
  assumes r: "\<And>s. R s s" and t: "\<And>a b c. R a b \<Longrightarrow> R b c \<Longrightarrow> R a c"
    and st: "\<And>x s s'. f x s = Inr s' \<Longrightarrow> R s s'"
    and g: "forChilds n f s = Inr s'"
  shows "R s s'"
proof -
  obtain s1 where a: "forEach (case children n of None \<Rightarrow> [] | Some cs \<Rightarrow> map fst cs) f s = Inr s1"
    and b: "(if is_rawNode (node n) then Inr s1 else forGatherChildren (node n) f s1) = Inr s'"
    using g unfolding forChilds_def andThen_def by (auto split: sum.splits)
  have 1: "R s s1"
    by (rule forEach_rel [where R = R and f = f, OF r t st a])
  have 2: "R s1 s'"
  proof (cases "is_rawNode (node n)")
    case True
    then show ?thesis using b r by simp
  next
    case False
    then have gg: "forGatherChildren (node n) f s1 = Inr s'" using b by simp
    show ?thesis by (rule forGather_rel [where R = R and f = f, OF r t st gg])
  qed
  show ?thesis using t [OF 1 2] .
qed

lemma shrinksD: "shrinks db db' \<Longrightarrow> dirties db' k = Some e' \<Longrightarrow> \<exists>e. dirties db k = Some e \<and> node e = node e'"
  unfolding shrinks_def by blast

lemma shrinks_NoneD: "shrinks db db' \<Longrightarrow> dirties db k = None \<Longrightarrow> dirties db' k = None"
  using shrinksD [of db db' k] by (cases "dirties db' k") auto

lemma removedNonRaw_same: "dirties db' = dirties db \<Longrightarrow> removedNonRaw db db' = {}"
  by (auto simp: removedNonRaw_def)

lemma removedNonRaw_trans:
  assumes ab: "shrinks a b" and bc: "shrinks b c"
  shows "removedNonRaw a c = removedNonRaw a b \<union> removedNonRaw b c"
proof (rule set_eqI)
  fix h
  show "(h \<in> removedNonRaw a c) = (h \<in> removedNonRaw a b \<union> removedNonRaw b c)"
  proof (cases "dirties b h")
    case None
    have "dirties c h = None"
      using shrinks_NoneD [OF bc None] .
    then show ?thesis using None by (simp add: removedNonRaw_def)
  next
    case (Some eb)
    then obtain ea where ea: "dirties a h = Some ea" "node ea = node eb"
      using shrinksD [OF ab Some] by blast
    then show ?thesis using Some by (simp add: removedNonRaw_def)
  qed
qed

lemma shrinks_refl: "shrinks a a"
  by (simp add: shrinks_def)

lemma shrinks_trans:
  assumes ab: "shrinks a b" and bc: "shrinks b c"
  shows "shrinks a c"
  unfolding shrinks_def
proof (intro allI impI)
  fix k e'
  assume "dirties c k = Some e'"
  then obtain eb where "dirties b k = Some eb" "node eb = node e'"
    using shrinksD [OF bc] by blast
  then show "\<exists>e. dirties a k = Some e \<and> node e = node e'"
    using shrinksD [OF ab, of k eb] by auto
qed

lemma derefRel_refl: "derefRel a a"
  by (simp add: derefRel_def shrinks_refl removedNonRaw_same)

lemma derefRel_trans:
  assumes ab: "derefRel a b" and bc: "derefRel b c"
  shows "derefRel a c"
proof -
  have 1: "shrinks (fst a) (fst b)" "shrinks (fst b) (fst c)"
    using ab bc by (simp_all add: derefRel_def)
  note u = removedNonRaw_trans [OF 1]
  have 2: "snd c = snd a \<union> removedNonRaw (fst a) (fst c)"
    using ab bc unfolding derefRel_def u by blast
  have 4: "useless (fst c) = useless (fst a)"
    using ab bc by (simp add: derefRel_def)
  have 3: "\<forall>h. cleans_Get (fst c) h
             = (if h \<in> removedNonRaw (fst a) (fst c) then [] else cleans_Get (fst a) h)"
    using ab bc unfolding derefRel_def u by simp
  show ?thesis
    unfolding derefRel_def using shrinks_trans [OF 1] 2 3 4 by blast
qed

lemma set_flushNext_Inr:
  "set_flushNext k v db = Inr db' \<Longrightarrow>
     \<exists>e. dirties db k = Some e \<and> db' = db\<lparr>dirties := (dirties db)(k \<mapsto> e\<lparr>flushNext := v\<rparr>)\<rparr>"
  by (auto simp: set_flushNext_def split: option.splits)

lemma set_flushPrev_Inr:
  "set_flushPrev k v db = Inr db' \<Longrightarrow>
     \<exists>e. dirties db k = Some e \<and> db' = db\<lparr>dirties := (dirties db)(k \<mapsto> e\<lparr>flushPrev := v\<rparr>)\<rparr>"
  by (auto simp: set_flushPrev_def split: option.splits)

lemma relinked_refl: "relinked db db"
  by (simp add: relinked_def)

lemma relinked_trans: "relinked a b \<Longrightarrow> relinked b c \<Longrightarrow> relinked a c"
  by (simp add: relinked_def)

lemma relinked_set_flushNext: "set_flushNext k v db = Inr db' \<Longrightarrow> relinked db db'"
  by (drule set_flushNext_Inr) (auto simp: relinked_def)

lemma relinked_set_flushPrev: "set_flushPrev k v db = Inr db' \<Longrightarrow> relinked db db'"
  by (drule set_flushPrev_Inr) (auto simp: relinked_def)

lemma relinked_unlink:
  assumes "unlink h nd db = Inr db'"
  shows "relinked db db'"
proof (cases "h = oldest db")
  case True
  then have "set_flushPrev (flushNext nd) 0 (db\<lparr>oldest := flushNext nd\<rparr>) = Inr db'"
    using assms by (simp add: unlink_def)
  then have "relinked (db\<lparr>oldest := flushNext nd\<rparr>) db'"
    by (rule relinked_set_flushPrev)
  then show ?thesis by (simp add: relinked_def)
next
  case False
  show ?thesis
  proof (cases "h = newest db")
    case True
    then have "set_flushNext (flushPrev nd) 0 (db\<lparr>newest := flushPrev nd\<rparr>) = Inr db'"
      using assms False by (simp add: unlink_def)
    then have "relinked (db\<lparr>newest := flushPrev nd\<rparr>) db'"
      by (rule relinked_set_flushNext)
    then show ?thesis by (simp add: relinked_def)
  next
    case n: False
    then obtain d1 where a: "set_flushNext (flushPrev nd) (flushNext nd) db = Inr d1"
      and b: "set_flushPrev (flushNext nd) (flushPrev nd) d1 = Inr db'"
      using assms False by (auto simp: unlink_def andThen_def split: sum.splits)
    show ?thesis
      using relinked_trans [OF relinked_set_flushNext [OF a] relinked_set_flushPrev [OF b]] .
  qed
qed

lemma relinked_node:
  assumes "relinked db db'"
  shows "map_option node (dirties db' k) = map_option node (dirties db k)"
proof -
  have "map_option (\<lambda>e. e\<lparr>flushPrev := 0, flushNext := 0\<rparr>) (dirties db' k)
      = map_option (\<lambda>e. e\<lparr>flushPrev := 0, flushNext := 0\<rparr>) (dirties db k)"
    using assms by (simp add: relinked_def)
  then have "map_option node (map_option (\<lambda>e. e\<lparr>flushPrev := 0, flushNext := 0\<rparr>) (dirties db' k))
      = map_option node (map_option (\<lambda>e. e\<lparr>flushPrev := 0, flushNext := 0\<rparr>) (dirties db k))"
    by simp
  then show ?thesis by (simp add: option.map_comp comp_def)
qed

lemma relinked_derefRel:
  assumes "relinked db db'"
  shows "derefRel (db, u) (db', u)"
proof -
  note n = relinked_node [OF assms]
  have s: "shrinks db db'"
    unfolding shrinks_def
  proof (intro allI impI)
    fix k e' assume "dirties db' k = Some e'"
    then show "\<exists>e. dirties db k = Some e \<and> node e = node e'"
      using n [of k] by (cases "dirties db k") auto
  qed
  have r: "removedNonRaw db db' = {}"
    unfolding removedNonRaw_def
  proof -
    have "\<And>h e. dirties db h = Some e \<Longrightarrow> dirties db' h \<noteq> None"
      using n by (metis option.distinct(1) option.map_disc_iff)
    then show "{h. \<exists>e. dirties db h = Some e \<and> dirties db' h = None \<and> \<not> is_rawNode (node e)} = {}"
      by blast
  qed
  have c: "cleans_Get db' = cleans_Get db"
    using assms by (auto simp: relinked_def cleans_Get_def fun_eq_iff)
  have "useless db' = useless db"
    using assms by (simp add: relinked_def)
  then show ?thesis
    by (simp add: derefRel_def s r c)
qed

lemma Now_dirties: "dirties (snd (Now db)) = dirties db"
  by (simp add: Now_def split: list.splits)

lemma Now_cleans: "cleans (snd (Now db)) = cleans db"
  by (simp add: Now_def split: list.splits)

lemma Now_freshNodes: "freshNodes (snd (Now db)) = freshNodes db"
  by (simp add: Now_def split: list.splits)


lemma Now_useless: "useless (snd (Now db)) = useless db"
  by (simp add: Now_def split: list.splits)

lemma relinked_Now: "relinked db (snd (Now db))"
  by (simp add: relinked_def Now_dirties Now_cleans Now_useless)

lemma cleans_Get_Del: "cleans_Get (cleans_Del h db) k = (if k = h then [] else cleans_Get db k)"
  by (simp add: cleans_Get_def cleans_Del_def split: option.splits)

lemma cleans_Get_cong: "cleans a = cleans b \<Longrightarrow> cleans_Get a k = cleans_Get b k"
  by (simp add: cleans_Get_def)

text \<open>The last steps of a removal in \<open>dereference\<close>, seen from the state at entry.\<close>

lemma derefRel_finish:
  assumes r: "derefRel (db, u) (db3, u3)"
    and nd: "dirties db h = Some nd"
    and d: "dirties db7 = (dirties db3)(h := None)"
    and c: "cleans db7 = (if is_rawNode (node nd) then cleans db3 else cleans (cleans_Del h db3))"
    and u: "u7 = (if is_rawNode (node nd) then u3 else insert h u3)"
    and us: "useless db7 = useless db3"
  shows "derefRel (db, u) (db7, u7)"
proof -
  have s3: "shrinks db db3" and u3: "u3 = u \<union> removedNonRaw db db3"
    and c3: "\<And>k. cleans_Get db3 k = (if k \<in> removedNonRaw db db3 then [] else cleans_Get db k)"
    and us3: "useless db3 = useless db"
    using r by (simp_all add: derefRel_def)
  have s7: "shrinks db db7"
    unfolding shrinks_def
  proof (intro allI impI)
    fix k e' assume "dirties db7 k = Some e'"
    then have "dirties db3 k = Some e'"
      using d by (simp split: if_splits)
    then show "\<exists>e. dirties db k = Some e \<and> node e = node e'"
      by (rule shrinksD [OF s3])
  qed
  have rm: "removedNonRaw db db7
      = removedNonRaw db db3 \<union> (if is_rawNode (node nd) then {} else {h})"
    unfolding removedNonRaw_def using nd d by (auto split: if_splits)
  have cg: "\<And>k. cleans_Get db7 k
      = (if is_rawNode (node nd) then cleans_Get db3 k
         else if k = h then [] else cleans_Get db3 k)"
    using c cleans_Get_Del [of h db3] by (simp add: cleans_Get_def)
  show ?thesis
    unfolding derefRel_def
    by (simp add: s7 rm u u3 cg c3 us us3)
qed

lemma dereference_rel:
  "dereference k h (Some clearFn) start fr = Inr fr' \<Longrightarrow> derefRel fr fr'"
proof (induction k arbitrary: h fr fr')
  case 0
  then show ?case by simp
next
  case (Suc k)
  obtain db u where fr: "fr = (db, u)" by (cases fr)
  show ?case
  proof (cases "h \<in> freshNodes db")
    case True
    then show ?thesis using Suc.prems fr by (simp add: derefRel_refl)
  next
    case nf: False
    show ?thesis
    proof (cases "dirties db h")
      case None
      then show ?thesis using Suc.prems fr nf by (simp add: derefRel_refl)
    next
      case (Some nd)
      let ?db1 = "snd (Now db)"
      have r1: "derefRel (db, u) (?db1, u)"
        by (rule relinked_derefRel [OF relinked_Now])
      show ?thesis
      proof (cases "start + DereferenceTimeLimit < fst (Now db) \<or> \<not> version nd < nodeVersion ?db1")
        case True
        then have "fr' = (?db1, u)"
          using Suc.prems fr nf Some by (auto simp: Let_def split: if_splits)
        then show ?thesis using r1 fr by simp
      next
        case False
        then obtain db2 fr3 where
          a: "unlink h nd ?db1 = Inr db2"
          and b: "forChilds nd (\<lambda>c. dereference k c (Some clearFn) start) (db2, u) = Inr fr3"
          and c: "fr' =
            ((let fr5 = (if is_rawNode (node nd)
                         then ((fst fr3)\<lparr>dirties := (dirties (fst fr3))(h := None)\<rparr>, snd fr3)
                         else clearFn h ((fst fr3)\<lparr>dirties := (dirties (fst fr3))(h := None)\<rparr>, snd fr3));
                  db6 = (fst fr5)\<lparr>dirtiesSize := dirtiesSize (fst fr5)
                                    - int (HashLength + unat (size' nd))\<rparr>
              in (if children nd \<noteq> None
                  then db6\<lparr>childrenSize := childrenSize db6 - cachedNodeChildrenSize\<rparr>
                  else db6, snd fr5)))"
          using Suc.prems fr nf Some
          by (auto simp: Let_def andThen_def split: if_splits sum.splits)
        have r2: "derefRel (?db1, u) (db2, u)"
          by (rule relinked_derefRel [OF relinked_unlink [OF a]])
        have r3: "derefRel (db2, u) fr3"
          by (rule forChilds_rel [where R = derefRel, OF derefRel_refl derefRel_trans Suc.IH b])
        have r13: "derefRel (db, u) (fst fr3, snd fr3)"
          using derefRel_trans [OF r1 derefRel_trans [OF r2 r3]] by simp
        have "derefRel (db, u) (fst fr', snd fr')"
        proof (rule derefRel_finish [OF r13 Some])
          show "dirties (fst fr') = (dirties (fst fr3))(h := None)"
            unfolding c by (simp add: Let_def clearFn_def cleans_Del_def split: option.splits)
          show "cleans (fst fr') = (if is_rawNode (node nd) then cleans (fst fr3)
                                    else cleans (cleans_Del h (fst fr3)))"
            unfolding c by (simp add: Let_def clearFn_def cleans_Del_def split: option.splits)
          show "snd fr' = (if is_rawNode (node nd) then snd fr3 else insert h (snd fr3))"
            unfolding c by (simp add: Let_def clearFn_def)
          show "useless (fst fr') = useless (fst fr3)"
            unfolding c by (simp add: Let_def clearFn_def cleans_Del_def split: option.splits)
        qed
        then show ?thesis using fr by simp
      qed
    qed
  qed
qed

lemma DereferenceDB_rel:
  assumes "DereferenceDB fuel root db = Inr db'" and "root \<noteq> 0"
  shows "useless db' = useless db @ [removedNonRaw db db']
     \<and> (\<forall>h. cleans_Get db' h = (if h \<in> removedNonRaw db db' then [] else cleans_Get db h))"
proof -
  obtain db1 fr db2 where
    l: "Lock (snd (Now db)) = Inr db1"
    and d: "dereference fuel root (Some clearFn) (fst (Now db)) (db1, {}) = Inr fr"
    and u: "Unlock (fst fr) = Inr db2"
    and e: "db' = db2\<lparr>useless := useless db2 @ [snd fr]\<rparr>"
    using assms by (auto simp: DereferenceDB_def andThen_def split: sum.splits)
  have db1: "db1 = (snd (Now db))\<lparr>writer := True\<rparr>"
    using l by (auto simp: Lock_def split: if_splits)
  have db2: "db2 = (fst fr)\<lparr>writer := False\<rparr>"
    using u by (auto simp: Unlock_def split: if_splits)
  have r: "derefRel (db1, {}) fr"
    by (rule dereference_rel [OF d])
  have d1: "dirties db1 = dirties db" "cleans db1 = cleans db" "useless db1 = useless db"
    unfolding db1 by (simp_all add: Now_dirties Now_cleans Now_def split: list.splits)
  have d2: "dirties db' = dirties (fst fr)" "cleans db' = cleans (fst fr)"
    unfolding e db2 by simp_all
  have rm: "removedNonRaw db db' = removedNonRaw db1 (fst fr)"
    by (simp add: removedNonRaw_def d1 d2)
  have us: "useless (fst fr) = useless db1"
    using r by (simp add: derefRel_def)
  have sf: "snd fr = removedNonRaw db1 (fst fr)"
    using r by (simp add: derefRel_def)
  have cg: "\<And>h. cleans_Get (fst fr) h
      = (if h \<in> removedNonRaw db1 (fst fr) then [] else cleans_Get db1 h)"
    using r by (simp add: derefRel_def)
  have cg1: "\<And>h. cleans_Get db1 h = cleans_Get db h"
    by (rule cleans_Get_cong [OF d1(2)])
  have cg2: "\<And>h. cleans_Get db' h = cleans_Get (fst fr) h"
    by (rule cleans_Get_cong [OF d2(2)])
  have "useless db' = useless db @ [snd fr]"
    unfolding e db2 by (simp add: us d1)
  then have "useless db' = useless db @ [removedNonRaw db db']"
    by (simp only: sf rm)
  then show ?thesis
    by (simp add: cg2 cg cg1 rm)
qed

lemma staleDB_reached:
  "n = ValueNode [7] \<or> n = RawNode [7] \<Longrightarrow>
   andThen (insert_db 1 1 n (NewDatabase True True [] [])) (\<lambda>db.
     case Commit (Suc 0) X0 1 False False (insertFreshNode 1 db) of
       Inr (None, db') \<Rightarrow> Inr (IncrVersion db')
     | other \<Rightarrow> Inl OutOfStack) = Inr (staleDB n)"
  by (auto simp: eval_defs X0_def staleDB_def)

text \<open>
  Claim C8, as stated, fails for a raw byte blob: \<^verbatim>\<open>DereferenceDB(1)\<close> removes the
  stale node 1 from the node store, yet the set it appends to \<^verbatim>\<open>useless\<close> is
  empty and the clean cache still holds the bytes.
\<close>

theorem DereferenceDB_skips_raw_blob:
  "dirties (staleDB (RawNode [7])) 1 \<noteq> None
   \<and> (case DereferenceDB (Suc 0) 1 (staleDB (RawNode [7])) of
        Inr db' \<Rightarrow> dirties db' 1 = None \<and> useless db' = [{}] \<and> cleans_Get db' 1 = [7]
      | Inl c \<Rightarrow> False)"
  by (simp add: eval_defs X0_def staleDB_def DereferenceDB_def clearFn_def cleans_Get_def)

text \<open>
  Claim C8, amended. For every node that \<^verbatim>\<open>DereferenceDB(root)\<close> removes from the
  node store: the call appends one set to \<^verbatim>\<open>useless\<close>; if the node's content is
  not a raw byte blob its hash is in that set and the clean cache yields no bytes
  for it afterwards; if the content is a raw byte blob (contract code) the hash
  is not in the set and the clean cache is as before for it.
\<close>

theorem DereferenceDB_records_removed:
  "DereferenceDB fuel root db = Inr db' \<and> dirties db h = Some e \<and> dirties db' h = None
   \<longrightarrow> (\<exists>U. useless db' = useless db @ [U]
          \<and> (if is_rawNode (node e)
               then h \<notin> U \<and> cleans_Get db' h = cleans_Get db h
               else h \<in> U \<and> cleans_Get db' h = []))"
proof (intro impI, elim conjE)
  assume a: "DereferenceDB fuel root db = Inr db'"
    and b: "dirties db h = Some e" and c: "dirties db' h = None"
  have "root \<noteq> 0"
    using a b c by (auto simp: DereferenceDB_def)
  note r = DereferenceDB_rel [OF a this]
  have "(h \<in> removedNonRaw db db') = (\<not> is_rawNode (node e))"
    using b c by (simp add: removedNonRaw_def)
  then show "\<exists>U. useless db' = useless db @ [U]
          \<and> (if is_rawNode (node e)
               then h \<notin> U \<and> cleans_Get db' h = cleans_Get db h
               else h \<in> U \<and> cleans_Get db' h = [])"
    using r by auto
qed

theorem DereferenceDB_records_removed_witness:
  "\<exists>db' U. DereferenceDB (Suc 0) 1 (staleDB (ValueNode [7])) = Inr db'
      \<and> cleans_Get (staleDB (ValueNode [7])) 1 = [1]
      \<and> dirties db' 1 = None
      \<and> useless db' = [U] \<and> 1 \<in> U \<and> cleans_Get db' 1 = []"
proof -
  obtain db' where a: "DereferenceDB (Suc 0) 1 (staleDB (ValueNode [7])) = Inr db'"
    and c: "dirties db' 1 = None"
    by (simp add: eval_defs X0_def staleDB_def DereferenceDB_def clearFn_def)
  have b: "dirties (staleDB (ValueNode [7])) 1
      = Some \<lparr>node = ValueNode [7], size' = 1, parents = 0, children = None,
              flushPrev = 0, flushNext = 0, version = 0\<rparr>"
    by (simp add: staleDB_def)
  have g: "cleans_Get (staleDB (ValueNode [7])) 1 = [1]"
    by (simp add: staleDB_def cleans_Get_def rlp_def X0_def)
  have u: "useless (staleDB (ValueNode [7])) = []"
    by (simp add: staleDB_def)
  show ?thesis
    using DereferenceDB_records_removed [of "Suc 0" 1 "staleDB (ValueNode [7])" db' 1
        "\<lparr>node = ValueNode [7], size' = 1, parents = 0, children = None,
          flushPrev = 0, flushNext = 0, version = 0\<rparr>"] a b c g u
    by auto
qed

subsection \<open>One call of dereference\<close>









end
